theory Spec2Isabelle
  imports Main "HOL-Library.Word" "HOL-Library.Sublist"
begin

section \<open>JavaScript strings\<close>

text \<open>
  A JavaScript string is a sequence of 16-bit code units; \<open>===\<close> on strings compares
  the code units, and a regular expression without the \<open>u\<close> flag matches code units.
  A source literal such as \<^verbatim>\<open>"urgent"\<close> is written \<open>js ''urgent''\<close>.
\<close>

type_synonym jschar = "16 word"
type_synonym jsstring = "jschar list"

abbreviation js :: "string \<Rightarrow> jsstring" where
  "js s \<equiv> map of_char s"

text \<open>
  \<^verbatim>\<open>s.replace(/[class]{k,}/g, rep)\<close> for \<open>k \<ge> 1\<close> and a replacement without
  \<^verbatim>\<open>$\<close> patterns: the scan goes left to right; where a character of the class starts
  a run of at least \<open>k\<close> such characters, the greedy match takes the whole run and
  \<open>rep\<close> is emitted for it; otherwise the character is copied and the scan moves on
  by one.
\<close>

function replaceRuns :: "('a \<Rightarrow> bool) \<Rightarrow> nat \<Rightarrow> 'a list \<Rightarrow> 'a list \<Rightarrow> 'a list" where
  "replaceRuns P k rep [] = []"
| "replaceRuns P k rep (c # cs) =
     (if P c \<and> k \<le> Suc (length (takeWhile P cs))
      then rep @ replaceRuns P k rep (dropWhile P cs)
      else c # replaceRuns P k rep cs)"
  by pat_completeness auto
termination
  by (relation "measure (\<lambda>(P, k, rep, s). length s)")
     (auto simp: le_imp_less_Suc length_dropWhile_le)

text \<open>
  The characters \<^verbatim>\<open>String.prototype.trim\<close> strips (ECMAScript WhiteSpace and
  LineTerminator): TAB, LF, VT, FF, CR, SPACE, NBSP, U+1680, U+2000 to U+200A, U+2028,
  U+2029, U+202F, U+205F, U+3000 and U+FEFF.
\<close>

definition isWhiteSpace :: "jschar \<Rightarrow> bool" where
  "isWhiteSpace c \<longleftrightarrow>
     c \<in> {0x09, 0x0A, 0x0B, 0x0C, 0x0D, 0x20, 0xA0, 0x1680, 0x2028, 0x2029,
          0x202F, 0x205F, 0x3000, 0xFEFF} \<or> (0x2000 \<le> c \<and> c \<le> 0x200A)"

definition trim :: "jsstring \<Rightarrow> jsstring" where
  "trim s = rev (dropWhile isWhiteSpace (rev (dropWhile isWhiteSpace s)))"

text \<open>Truthiness of an optional string: \<^verbatim>\<open>undefined\<close>, \<^verbatim>\<open>null\<close> and \<^verbatim>\<open>""\<close> are falsy.\<close>

fun truthy :: "jsstring option \<Rightarrow> bool" where
  "truthy None = False"
| "truthy (Some t) = (t \<noteq> [])"

section \<open>Data model\<close>

text \<open>
  The three record types of \<^verbatim>\<open>App.tsx\<close>. The field \<^verbatim>\<open>id\<close> is \<open>ident\<close> and
  \<^verbatim>\<open>from\<close> is \<open>sender\<close> here; an optional field is an \<open>option\<close>. Identifiers are
  the integers the service assigns.
\<close>

record EmailItem =
  ident :: int
  subject :: "jsstring option"
  sender :: "jsstring option"
  content :: jsstring
  summary :: jsstring
  urgency :: jsstring
  intent :: "jsstring option"
  reason :: jsstring
  actions :: "jsstring list option"

record SentItem =
  email_id :: int
  sent_intent :: jsstring
  sent_draft :: jsstring
  sent_status :: jsstring
  sent_at :: jsstring

record FollowUp =
  normal_emails_count :: int
  suggested_time :: jsstring
  follow_message :: jsstring

text \<open>
  The component state: one field per \<^verbatim>\<open>useState\<close> of the later variant
  (\<^verbatim>\<open>src/App.tsx\<close>). The earlier variant has neither \<open>lastAnalyzedText\<close> nor
  \<open>analyzeHover\<close>; its handlers never read or write them.
\<close>

record state =
  rawText :: jsstring
  emails :: "EmailItem list"
  loading :: bool
  error :: "jsstring option"
  modalOpen :: bool
  approveStatus :: "jsstring option"
  modalDraft :: jsstring
  modalEmailId :: "int option"
  modalLoading :: bool
  followUp :: "FollowUp option"
  sentLog :: "SentItem list"
  sentLogOpen :: bool
  sentLogLoading :: bool
  sentJustNow :: bool
  lastAnalyzedText :: jsstring
  analyzeHover :: bool

definition initial :: state where
  "initial = \<lparr>rawText = [], emails = [], loading = False, error = None,
     modalOpen = False, approveStatus = None, modalDraft = [], modalEmailId = None,
     modalLoading = False, followUp = None, sentLog = [], sentLogOpen = False,
     sentLogLoading = False, sentJustNow = False, lastAnalyzedText = [],
     analyzeHover = False\<rparr>"

section \<open>The network\<close>

text \<open>
  What \<^verbatim>\<open>await fetch(...)\<close> followed by \<^verbatim>\<open>await res.json()\<close> can do: the fetch
  rejects, or it resolves to a response with its \<^verbatim>\<open>ok\<close> flag and a body. The body
  is \<open>None\<close> when \<^verbatim>\<open>res.json()\<close> rejects (the body is not JSON) or yields
  \<^verbatim>\<open>null\<close>, on which the handler's first field access throws; both end in the
  handler's \<^verbatim>\<open>catch\<close>. Otherwise it is an object with the fields the handler reads.
\<close>

datatype 'a response = Rejected | Resolved bool "'a option"

record AnalyzeData =
  data_emails :: "EmailItem list"
  data_follow_up :: "FollowUp option"

record SuggestData =
  data_draft :: "jsstring option"
  data_message :: "jsstring option"

record ApproveData =
  approve_message :: "jsstring option"

record SentData =
  data_items :: "SentItem list option"

text \<open>The answer of the service to each request a handler can send.\<close>

record network =
  clearResponse :: "unit response"
  analyzeResponse :: "AnalyzeData response"
  sentResponse :: "SentData response"
  suggestResponse :: "SuggestData response"
  approveResponse :: "ApproveData response"

datatype request =
    PostClear
  | PostAnalyze jsstring
  | GetSent
  | PostSuggest jsstring jsstring "jsstring option"
  | PostApprove int jsstring jsstring

text \<open>
  A handler is an \<^verbatim>\<open>async\<close> function: its promise is fulfilled when the body
  returns and rejected when an exception leaves it. \<^verbatim>\<open>setTimeout\<close> registers a
  callback with its delay.
\<close>

datatype settled = Fulfilled | Thrown

datatype callback = CloseModal

fun runCallback :: "callback \<Rightarrow> state \<Rightarrow> state" where
  "runCallback CloseModal s = s\<lparr>modalOpen := False\<rparr>"

record run =
  final :: state
  requests :: "request list"
  timers :: "(nat \<times> callback) list"
  promise :: settled

section \<open>Derived values and pure helpers\<close>

definition urgentEmails :: "state \<Rightarrow> EmailItem list" where
  "urgentEmails s = filter (\<lambda>e. urgency e = js ''urgent'') (emails s)"

definition normalEmails :: "state \<Rightarrow> EmailItem list" where
  "normalEmails s = filter (\<lambda>e. urgency e = js ''normal'') (emails s)"

definition lowEmails :: "state \<Rightarrow> EmailItem list" where
  "lowEmails s = filter (\<lambda>e. urgency e = js ''low'') (emails s)"

text \<open>The \<^verbatim>\<open>disabled\<close> attribute of the approve button.\<close>

definition approveDisabled :: "state \<Rightarrow> bool" where
  "approveDisabled s \<longleftrightarrow> modalLoading s \<or> trim (modalDraft s) = [] \<or> sentJustNow s"

text \<open>The two replacements of \<^verbatim>\<open>cleanFormatting\<close>, then the value of \<^verbatim>\<open>cleaned\<close>.\<close>

definition collapseNewlines :: "jsstring \<Rightarrow> jsstring" where
  "collapseNewlines = replaceRuns (\<lambda>c. c = 0x0A) 2 [0x0A]"

definition collapseSpaces :: "jsstring \<Rightarrow> jsstring" where
  "collapseSpaces = replaceRuns (\<lambda>c. c = 0x20 \<or> c = 0x09) 1 [0x20]"

definition cleaned :: "jsstring \<Rightarrow> jsstring" where
  "cleaned t = trim (collapseSpaces (collapseNewlines t))"

definition cleanFormatting :: "state \<Rightarrow> state" where
  "cleanFormatting s = s\<lparr>rawText := cleaned (rawText s)\<rparr>"

section \<open>Handlers\<close>

text \<open>
  The part both variants of \<^verbatim>\<open>analyzeEmails\<close> share: closing the outbox panel,
  emptying its mirror, and the analyze request in its \<^verbatim>\<open>try/catch/finally\<close>.
  \<open>sent\<close> is what the handler has requested so far.
\<close>

definition analyzeRequest :: "network \<Rightarrow> request list \<Rightarrow> state \<Rightarrow> run" where
  "analyzeRequest net sent s =
     (let s1 = s\<lparr>sentLogOpen := False, sentLog := []\<rparr>;
          reqs = sent @ [PostAnalyze (rawText s)]
      in case analyzeResponse net of
           Resolved ok (Some d) \<Rightarrow>
             \<lparr>final = s1\<lparr>emails := data_emails d, followUp := data_follow_up d,
                         loading := False\<rparr>,
              requests = reqs, timers = [], promise = Fulfilled\<rparr>
         | _ \<Rightarrow>
             \<lparr>final = s1\<lparr>error := Some (js ''Failed to analyze emails.''),
                         loading := False\<rparr>,
              requests = reqs, timers = [], promise = Fulfilled\<rparr>)"

text \<open>The later variant (\<^verbatim>\<open>src/App.tsx\<close>): the clear request stands before the \<^verbatim>\<open>try\<close>.\<close>

definition analyzeEmails :: "network \<Rightarrow> state \<Rightarrow> run" where
  "analyzeEmails net s =
     (let s1 = s\<lparr>loading := True, error := None\<rparr>
      in if rawText s \<noteq> lastAnalyzedText s then
           (case clearResponse net of
              Resolved True _ \<Rightarrow>
                analyzeRequest net [PostClear]
                  (s1\<lparr>sentLog := [], lastAnalyzedText := rawText s\<rparr>)
            | _ \<Rightarrow>
                \<lparr>final = s1, requests = [PostClear], timers = [], promise = Thrown\<rparr>)
         else analyzeRequest net [] s1)"

text \<open>The earlier variant: a guard on blank text, and no clear request.\<close>

definition analyzeEmails_early :: "network \<Rightarrow> state \<Rightarrow> run" where
  "analyzeEmails_early net s =
     (if trim (rawText s) = [] then
        \<lparr>final = s\<lparr>error := Some (js ''Please paste emails or load demo data.'')\<rparr>,
         requests = [], timers = [], promise = Fulfilled\<rparr>
      else analyzeRequest net [] (s\<lparr>loading := True, error := None\<rparr>))"

definition loadSentLog :: "network \<Rightarrow> state \<Rightarrow> run" where
  "loadSentLog net s =
     (let s1 = s\<lparr>sentLogLoading := True, error := None\<rparr>
      in case sentResponse net of
           Resolved ok (Some d) \<Rightarrow>
             \<lparr>final = s1\<lparr>sentLog := (case data_items d of None \<Rightarrow> [] | Some items \<Rightarrow> items),
                         sentLogOpen := True, sentLogLoading := False\<rparr>,
              requests = [GetSent], timers = [], promise = Fulfilled\<rparr>
         | _ \<Rightarrow>
             \<lparr>final = s1\<lparr>error := Some (js ''Failed to load sent log.''),
                         sentLogLoading := False\<rparr>,
              requests = [GetSent], timers = [], promise = Fulfilled\<rparr>)"

definition suggestReply :: "network \<Rightarrow> EmailItem \<Rightarrow> state \<Rightarrow> run" where
  "suggestReply net email s =
     (let s1 = s\<lparr>modalOpen := True, approveStatus := None, sentJustNow := False,
                 modalEmailId := Some (ident email), modalDraft := [],
                 modalLoading := True, error := None\<rparr>;
          reqs = [PostSuggest (content email) (urgency email) (intent email)];
          draft = (case suggestResponse net of
                     Resolved ok (Some d) \<Rightarrow>
                       (if truthy (data_draft d) then
                          (case data_draft d of Some t \<Rightarrow> t | None \<Rightarrow> [])
                        else
                          (case data_message d of
                             Some m \<Rightarrow> m
                           | None \<Rightarrow> js ''No draft available.''))
                   | _ \<Rightarrow> js ''Failed to get reply suggestion.'')
      in \<lparr>final = s1\<lparr>modalDraft := draft, modalLoading := False\<rparr>,
          requests = reqs, timers = [], promise = Fulfilled\<rparr>)"

text \<open>
  \<^verbatim>\<open>email?.intent ?? "default"\<close> for the email found under the modal's id.
\<close>

definition intentOf :: "int \<Rightarrow> EmailItem list \<Rightarrow> jsstring" where
  "intentOf mid es =
     (case find (\<lambda>e. ident e = mid) es of
        None \<Rightarrow> js ''default''
      | Some e \<Rightarrow> (case intent e of None \<Rightarrow> js ''default'' | Some i \<Rightarrow> i))"

text \<open>The state updates of a successful approve request, in the source's order.\<close>

definition approved :: "int \<Rightarrow> ApproveData \<Rightarrow> state \<Rightarrow> state" where
  "approved mid d s =
     s\<lparr>approveStatus :=
          Some (case approve_message d of
                  Some m \<Rightarrow> m
                | None \<Rightarrow> js ''Marked as sent (simulated).''),
       emails := filter (\<lambda>e. ident e \<noteq> mid) (emails s),
       sentJustNow := True\<rparr>"

text \<open>The later variant: after a success, the outbox is reloaded when its panel is open.\<close>

definition approveAndSend :: "network \<Rightarrow> state \<Rightarrow> run" where
  "approveAndSend net s =
     (case modalEmailId s of
        None \<Rightarrow> \<lparr>final = s, requests = [], timers = [], promise = Fulfilled\<rparr>
      | Some mid \<Rightarrow>
          (let s1 = s\<lparr>approveStatus := Some (js ''Sending...'')\<rparr>;
               req = PostApprove mid (intentOf mid (emails s)) (modalDraft s)
           in case approveResponse net of
                Resolved ok (Some d) \<Rightarrow>
                  (if sentLogOpen s then
                     (let r = loadSentLog net (approved mid d s1)
                      in \<lparr>final = final r, requests = req # requests r,
                          timers = [(800, CloseModal)], promise = Fulfilled\<rparr>)
                   else
                     \<lparr>final = approved mid d s1, requests = [req],
                      timers = [(800, CloseModal)], promise = Fulfilled\<rparr>)
              | _ \<Rightarrow>
                  \<lparr>final = s1\<lparr>approveStatus := Some (js ''Failed to approve/send.'')\<rparr>,
                   requests = [req], timers = [], promise = Fulfilled\<rparr>))"

definition approveAndSend_early :: "network \<Rightarrow> state \<Rightarrow> run" where
  "approveAndSend_early net s =
     (case modalEmailId s of
        None \<Rightarrow> \<lparr>final = s, requests = [], timers = [], promise = Fulfilled\<rparr>
      | Some mid \<Rightarrow>
          (let s1 = s\<lparr>approveStatus := Some (js ''Sending...'')\<rparr>;
               req = PostApprove mid (intentOf mid (emails s)) (modalDraft s)
           in case approveResponse net of
                Resolved ok (Some d) \<Rightarrow>
                  \<lparr>final = approved mid d s1, requests = [req],
                   timers = [(800, CloseModal)], promise = Fulfilled\<rparr>
              | _ \<Rightarrow>
                  \<lparr>final = s1\<lparr>approveStatus := Some (js ''Failed to approve/send.'')\<rparr>,
                   requests = [req], timers = [], promise = Fulfilled\<rparr>))"

section \<open>Notions of the specification\<close>

text \<open>The urgency values the specification recognizes.\<close>

definition recognized :: "jsstring set" where
  "recognized = {js ''urgent'', js ''normal'', js ''low''}"

text \<open>
  The specification's words for the draft after a successful suggestion: the response's
  draft if present, else its message if present, else the fixed string.
\<close>

definition specDraft :: "SuggestData \<Rightarrow> jsstring" where
  "specDraft d =
     (case data_draft d of
        Some t \<Rightarrow> t
      | None \<Rightarrow> (case data_message d of Some m \<Rightarrow> m | None \<Rightarrow> js ''No draft available.''))"

text \<open>
  The specification's "last successfully analyzed text". An invocation of
  \<open>analyzeEmails\<close> analyzed its text successfully when it returned without setting the
  error. A session is a list of steps, each typing a text into the text area and pressing
  Analyze under some network; \<open>analyzeSession\<close> runs it and keeps, next to the state,
  the text of the last successful step.
\<close>

definition analyzeSucceeded :: "run \<Rightarrow> bool" where
  "analyzeSucceeded r \<longleftrightarrow> promise r = Fulfilled \<and> error (final r) = None"

fun analyzeSession ::
  "(jsstring \<times> network) list \<Rightarrow> jsstring option \<times> state \<Rightarrow> jsstring option \<times> state" where
  "analyzeSession [] gs = gs"
| "analyzeSession ((t, net) # rest) (g, s) =
     (let r = analyzeEmails net (s\<lparr>rawText := t\<rparr>)
      in analyzeSession rest (if analyzeSucceeded r then Some t else g, final r))"

section \<open>Sample inputs\<close>

definition sampleEmail :: "int \<Rightarrow> string \<Rightarrow> EmailItem" where
  "sampleEmail i u =
     \<lparr>ident = i, subject = None, sender = None, content = js ''Hello'',
      summary = js ''Greeting'', urgency = js u, intent = None, reason = js ''demo'',
      actions = None\<rparr>"

text \<open>Four emails, one of them with an unrecognized urgency; the modal is open on email 1.\<close>

definition sampleState :: state where
  "sampleState = initial\<lparr>
     rawText := js ''Hello'',
     emails := [sampleEmail 1 ''urgent'', sampleEmail 2 ''normal'',
                sampleEmail 3 ''low'', sampleEmail 4 ''spam''],
     modalOpen := True, modalDraft := js ''Dear all'', modalEmailId := Some 1\<rparr>"

definition offline :: network where
  "offline = \<lparr>clearResponse = Rejected, analyzeResponse = Rejected,
     sentResponse = Rejected, suggestResponse = Rejected, approveResponse = Rejected\<rparr>"

definition online :: network where
  "online = \<lparr>clearResponse = Resolved True None,
     analyzeResponse = Resolved True (Some \<lparr>data_emails = [], data_follow_up = None\<rparr>),
     sentResponse = Resolved True (Some \<lparr>data_items = Some []\<rparr>),
     suggestResponse =
       Resolved True (Some \<lparr>data_draft = Some (js ''Thanks''), data_message = None\<rparr>),
     approveResponse = Resolved True (Some \<lparr>approve_message = None\<rparr>)\<rparr>"

text \<open>A suggestion whose draft is the empty string, next to a message.\<close>

definition emptyDraft :: SuggestData where
  "emptyDraft = \<lparr>data_draft = Some [], data_message = Some (js ''Try later'')\<rparr>"

text \<open>
  Text "a" is analyzed with success, then text "b" is submitted and its analyze request
  is rejected.
\<close>

definition sessionAfter :: "jsstring option \<times> state" where
  "sessionAfter =
     analyzeSession [(js ''a'', online), (js ''b'', online\<lparr>analyzeResponse := Rejected\<rparr>)]
       (None, initial)"

section \<open>The urgency buckets\<close>

text \<open>
  C3. For every email collection the urgent, normal and low buckets are pairwise
  disjoint, their union is exactly the set of emails of the collection whose urgency is
  one of "urgent", "normal", "low", and an email with any other urgency is in no bucket.
\<close>

theorem buckets_partition:
  "set (urgentEmails s) \<inter> set (normalEmails s) = {} \<and>
   set (urgentEmails s) \<inter> set (lowEmails s) = {} \<and>
   set (normalEmails s) \<inter> set (lowEmails s) = {} \<and>
   set (urgentEmails s) \<union> set (normalEmails s) \<union> set (lowEmails s) =
     {e \<in> set (emails s). urgency e \<in> recognized} \<and>
   (\<forall>e. urgency e \<notin> recognized \<longrightarrow>
      e \<notin> set (urgentEmails s) \<union> set (normalEmails s) \<union> set (lowEmails s))"
  by (auto simp: urgentEmails_def normalEmails_def lowEmails_def recognized_def)

text \<open>
  On the sample state email 4, whose urgency is "spam", is in the collection and in no
  bucket, and the urgent and normal buckets share no email.
\<close>

theorem buckets_partition_witness:
  "urgency (sampleEmail 4 ''spam'') \<notin> recognized \<and>
   sampleEmail 4 ''spam'' \<in> set (emails sampleState) \<and>
   sampleEmail 4 ''spam'' \<notin>
     set (urgentEmails sampleState) \<union> set (normalEmails sampleState) \<union>
     set (lowEmails sampleState) \<and>
   set (urgentEmails sampleState) \<inter> set (normalEmails sampleState) = {}"
proof -
  have h: "urgency (sampleEmail 4 ''spam'') \<notin> recognized"
    by (simp add: sampleEmail_def recognized_def)
  have m: "sampleEmail 4 ''spam'' \<in> set (emails sampleState)"
    by (simp add: sampleState_def)
  from buckets_partition [of sampleState] h m show ?thesis
    by blast
qed

section \<open>Cleaning the text\<close>

subsection \<open>Replacing runs\<close>

lemma takeWhile_stop: "\<not> P c \<Longrightarrow> takeWhile P (xs @ c # ys) = takeWhile P xs"
  by (induction xs) auto

lemma dropWhile_stop: "\<not> P c \<Longrightarrow> dropWhile P (xs @ c # ys) = dropWhile P xs @ c # ys"
  by (induction xs) auto

lemma replaceRuns_split:
  "\<not> P c \<Longrightarrow> replaceRuns P k rep (xs @ c # ys) = replaceRuns P k rep xs @ c # replaceRuns P k rep ys"
proof (induction P k rep xs rule: replaceRuns.induct)
  case (1 P k rep)
  then show ?case by simp
next
  case (2 P k rep d ds)
  then show ?case
    by (simp add: takeWhile_stop dropWhile_stop)
qed

lemma replaceRuns_run:
  "\<forall>c\<in>set r. P c \<Longrightarrow> replaceRuns P k rep r = (if r \<noteq> [] \<and> k \<le> length r then rep else r)"
proof (induction r)
  case Nil
  then show ?case by simp
next
  case (Cons c cs)
  then have tw: "takeWhile P cs = cs" and dw: "dropWhile P cs = []" and c: "P c"
    by auto
  have ih: "replaceRuns P k rep cs = (if cs \<noteq> [] \<and> k \<le> length cs then rep else cs)"
    using Cons by simp
  show ?case
    by (simp add: tw dw c ih)
qed

lemma replaceRuns_none: "\<forall>c\<in>set t. \<not> P c \<Longrightarrow> replaceRuns P k rep t = t"
  by (induction t) auto

lemma replaceRuns_maximal_run:
  assumes "u = [] \<or> \<not> P (last u)" and "v = [] \<or> \<not> P (hd v)" and "\<forall>c\<in>set r. P c"
  shows "replaceRuns P k rep (u @ r @ v) =
           replaceRuns P k rep u @ (if r \<noteq> [] \<and> k \<le> length r then rep else r) @ replaceRuns P k rep v"
proof -
  have right: "replaceRuns P k rep (r @ v) = replaceRuns P k rep r @ replaceRuns P k rep v"
  proof (cases v)
    case Nil
    then show ?thesis by simp
  next
    case (Cons d v')
    with assms(2) have "\<not> P d" by simp
    then show ?thesis
      using replaceRuns_split [of P d k rep r v'] Cons by simp
  qed
  have left: "replaceRuns P k rep (u @ w) = replaceRuns P k rep u @ replaceRuns P k rep w" for w
  proof (cases u rule: rev_cases)
    case Nil
    then show ?thesis by simp
  next
    case (snoc u' d)
    with assms(1) have "\<not> P d" by simp
    then show ?thesis
      using replaceRuns_split [of P d k rep u' w] replaceRuns_split [of P d k rep u' "[]"] snoc
      by simp
  qed
  show ?thesis
    using left [of "r @ v"] right replaceRuns_run [OF assms(3)] by simp
qed


subsection \<open>The two replacements\<close>

lemma collapseNewlines_simps:
  "collapseNewlines [] = []"
  "collapseNewlines (c # cs) =
     (if c = 0x0A \<and> prefix [0x0A] cs
      then 0x0A # collapseNewlines (dropWhile (\<lambda>c. c = 0x0A) cs)
      else c # collapseNewlines cs)"
proof -
  show "collapseNewlines [] = []"
    by (simp add: collapseNewlines_def)
  have "(2 \<le> Suc (length (takeWhile (\<lambda>c. c = (0x0A::jschar)) cs))) = prefix [0x0A] cs"
    by (cases cs) auto
  then show "collapseNewlines (c # cs) =
     (if c = 0x0A \<and> prefix [0x0A] cs
      then 0x0A # collapseNewlines (dropWhile (\<lambda>c. c = 0x0A) cs)
      else c # collapseNewlines cs)"
    by (simp add: collapseNewlines_def)
qed

lemma collapseSpaces_simps:
  "collapseSpaces [] = []"
  "collapseSpaces (c # cs) =
     (if c = 0x20 \<or> c = 0x09
      then 0x20 # collapseSpaces (dropWhile (\<lambda>c. c = 0x20 \<or> c = 0x09) cs)
      else c # collapseSpaces cs)"
  by (simp_all add: collapseSpaces_def)

lemma sublist_pair_Cons:
  "sublist [a, b] (x # xs) \<longleftrightarrow> x = a \<and> prefix [b] xs \<or> sublist [a, b] xs"
  by (auto simp: sublist_Cons_right)

lemma prefix_single: "prefix [a] t \<longleftrightarrow> t \<noteq> [] \<and> hd t = a"
  by (cases t) auto

lemma prefix_collapseNewlines: "prefix [a] (collapseNewlines t) = prefix [a] t"
  by (cases t) (auto simp: collapseNewlines_simps)

lemma prefix_collapseSpaces:
  "prefix [a] (collapseSpaces t) =
     (if a = 0x20 then prefix [0x20] t \<or> prefix [0x09] t else a \<noteq> 0x09 \<and> prefix [a] t)"
  by (cases t) (auto simp: collapseSpaces_simps)

lemma not_prefix_dropWhile: "P a \<Longrightarrow> \<not> prefix [a] (dropWhile P t)"
  using hd_dropWhile [of P t] by (auto simp: prefix_single)

lemma sublist_trans: "sublist a b \<Longrightarrow> sublist b c \<Longrightarrow> sublist a c"
  by (rule sublist_order.order.trans)

lemma sublist_dropWhile: "sublist p (dropWhile P t) \<Longrightarrow> sublist p t"
  using suffix_dropWhile [of P t] suffix_imp_sublist sublist_trans by blast

lemma collapseNewlines_no_pair: "\<not> sublist [0x0A, 0x0A] (collapseNewlines s)"
proof (induction s rule: length_induct)
  case (1 s)
  show ?case
  proof (cases s)
    case Nil
    then show ?thesis by (simp add: collapseNewlines_simps)
  next
    case (Cons c cs)
    have a: "\<not> sublist [0x0A, 0x0A] (collapseNewlines cs)"
      using 1 Cons by simp
    have "length (dropWhile (\<lambda>c. c = (0x0A::jschar)) cs) < length s"
      using Cons length_dropWhile_le [of "\<lambda>c. c = (0x0A::jschar)" cs] by simp
    then have b: "\<not> sublist [0x0A, 0x0A] (collapseNewlines (dropWhile (\<lambda>c. c = 0x0A) cs))"
      using 1 by blast
    have c: "\<not> prefix [0x0A] (dropWhile (\<lambda>c. c = (0x0A::jschar)) cs)"
      by (rule not_prefix_dropWhile) simp
    show ?thesis
      using a b c Cons
      by (simp add: collapseNewlines_simps sublist_pair_Cons prefix_collapseNewlines)
  qed
qed

lemma collapseNewlines_fix: "\<not> sublist [0x0A, 0x0A] s \<Longrightarrow> collapseNewlines s = s"
  by (induction s) (auto simp: collapseNewlines_simps sublist_pair_Cons)

lemma collapseSpaces_keeps_no_pair:
  "\<not> sublist [0x0A, 0x0A] s \<Longrightarrow> \<not> sublist [0x0A, 0x0A] (collapseSpaces s)"
proof (induction s rule: length_induct)
  case (1 s)
  show ?case
  proof (cases s)
    case Nil
    then show ?thesis by (simp add: collapseSpaces_simps)
  next
    case (Cons c cs)
    let ?d = "dropWhile (\<lambda>c. c = (0x20::jschar) \<or> c = 0x09) cs"
    have cs: "\<not> sublist [0x0A, 0x0A] cs"
      using 1(2) Cons by (simp add: sublist_pair_Cons)
    then have a: "\<not> sublist [0x0A, 0x0A] (collapseSpaces cs)"
      using 1 Cons by simp
    have "length ?d < length s"
      using Cons length_dropWhile_le [of _ cs] by (simp add: le_imp_less_Suc)
    moreover have "\<not> sublist [0x0A, 0x0A] ?d"
      using cs sublist_dropWhile by blast
    ultimately have b: "\<not> sublist [0x0A, 0x0A] (collapseSpaces ?d)"
      using 1 by blast
    show ?thesis
      using a b Cons 1(2)
      by (simp add: collapseSpaces_simps sublist_pair_Cons prefix_collapseSpaces)
  qed
qed

lemma collapseSpaces_no_tab: "0x09 \<notin> set (collapseSpaces s)"
proof (induction s rule: length_induct)
  case (1 s)
  show ?case
  proof (cases s)
    case Nil
    then show ?thesis by (simp add: collapseSpaces_simps)
  next
    case (Cons c cs)
    let ?d = "dropWhile (\<lambda>c. c = (0x20::jschar) \<or> c = 0x09) cs"
    have a: "0x09 \<notin> set (collapseSpaces cs)"
      using 1 Cons by simp
    have "length ?d < length s"
      using Cons length_dropWhile_le [of _ cs] by (simp add: le_imp_less_Suc)
    then have b: "0x09 \<notin> set (collapseSpaces ?d)"
      using 1 by blast
    show ?thesis
      using a b Cons by (simp add: collapseSpaces_simps)
  qed
qed

lemma collapseSpaces_no_pair: "\<not> sublist [0x20, 0x20] (collapseSpaces s)"
proof (induction s rule: length_induct)
  case (1 s)
  show ?case
  proof (cases s)
    case Nil
    then show ?thesis by (simp add: collapseSpaces_simps)
  next
    case (Cons c cs)
    let ?d = "dropWhile (\<lambda>c. c = (0x20::jschar) \<or> c = 0x09) cs"
    have a: "\<not> sublist [0x20, 0x20] (collapseSpaces cs)"
      using 1 Cons by simp
    have "length ?d < length s"
      using Cons length_dropWhile_le [of _ cs] by (simp add: le_imp_less_Suc)
    then have b: "\<not> sublist [0x20, 0x20] (collapseSpaces ?d)"
      using 1 by blast
    have c: "\<not> prefix [0x20] ?d" "\<not> prefix [0x09] ?d"
      by (rule not_prefix_dropWhile, simp)+
    show ?thesis
      using a b c Cons
      by (simp add: collapseSpaces_simps sublist_pair_Cons prefix_collapseSpaces)
  qed
qed

lemma collapseSpaces_fix:
  "0x09 \<notin> set s \<Longrightarrow> \<not> sublist [0x20, 0x20] s \<Longrightarrow> collapseSpaces s = s"
proof (induction s)
  case Nil
  then show ?case by (simp add: collapseSpaces_simps)
next
  case (Cons c cs)
  then have ih: "collapseSpaces cs = cs"
    by (simp add: sublist_pair_Cons)
  show ?case
  proof (cases "c = 0x20")
    case True
    with Cons.prems have "\<not> prefix [0x20] cs" "\<not> prefix [0x09] cs"
      by (auto simp: sublist_pair_Cons prefix_single dest: hd_in_set)
    then have "dropWhile (\<lambda>c. c = (0x20::jschar) \<or> c = 0x09) cs = cs"
      by (cases cs) auto
    with True ih show ?thesis by (simp add: collapseSpaces_simps)
  next
    case False
    with Cons.prems ih show ?thesis by (simp add: collapseSpaces_simps)
  qed
qed

subsection \<open>trim\<close>

lemma sublist_trim: "sublist (trim s) s"
proof -
  let ?d = "dropWhile isWhiteSpace s"
  have "sublist (dropWhile isWhiteSpace (rev ?d)) (rev ?d)"
    by (simp add: suffix_dropWhile)
  then have "sublist (trim s) ?d"
    by (simp add: trim_def sublist_rev_left)
  moreover have "sublist ?d s"
    by (simp add: suffix_dropWhile)
  ultimately show ?thesis
    using sublist_trans by blast
qed

lemma trim_fix:
  assumes "t = [] \<or> \<not> isWhiteSpace (hd t) \<and> \<not> isWhiteSpace (last t)"
  shows "trim t = t"
proof (cases t)
  case Nil
  then show ?thesis by (simp add: trim_def)
next
  case (Cons c cs)
  with assms have h: "\<not> isWhiteSpace c" and l: "\<not> isWhiteSpace (last t)"
    by auto
  have "dropWhile isWhiteSpace t = t"
    using h Cons by simp
  moreover have "t \<noteq> []"
    using Cons by simp
  then have "dropWhile isWhiteSpace (rev t) = rev t"
    using l by (simp add: dropWhile_eq_self_iff hd_rev)
  ultimately show ?thesis
    by (simp add: trim_def)
qed

lemma hd_rev_suffix:
  assumes "suffix x (rev d)" and "x \<noteq> []"
  shows "hd (rev x) = hd d" and "d \<noteq> []"
proof -
  obtain p where "rev d = p @ x"
    using assms(1) by (auto simp: suffix_def)
  then have "rev (rev d) = rev x @ rev p"
    by simp
  then have d: "d = rev x @ rev p"
    by simp
  show "d \<noteq> []"
    using d assms(2) by auto
  show "hd (rev x) = hd d"
    using d assms(2) by simp
qed

lemma trim_ends: "trim s = [] \<or> \<not> isWhiteSpace (hd (trim s)) \<and> \<not> isWhiteSpace (last (trim s))"
proof (cases "trim s = []")
  case True
  then show ?thesis by simp
next
  case False
  let ?d = "dropWhile isWhiteSpace s"
  let ?x = "dropWhile isWhiteSpace (rev ?d)"
  have x: "?x \<noteq> []" and t: "trim s = rev ?x"
    using False by (simp_all add: trim_def)
  have l: "\<not> isWhiteSpace (last (trim s))"
    using hd_dropWhile [OF x] x by (simp add: t last_rev)
  have "hd (rev ?x) = hd ?d" "?d \<noteq> []"
    using hd_rev_suffix [OF suffix_dropWhile x] by blast+
  then have "hd ?d = hd (trim s)" "?d \<noteq> []"
    by (simp_all add: t)
  then have "\<not> isWhiteSpace (hd (trim s))"
    using hd_dropWhile [of isWhiteSpace s] by auto
  with l show ?thesis by simp
qed

lemma trim_idem: "trim (trim s) = trim s"
  by (rule trim_fix) (rule trim_ends)

lemma trim_strips:
  assumes "\<forall>c\<in>set l. isWhiteSpace c" and "\<forall>c\<in>set r. isWhiteSpace c"
    and "m = [] \<or> \<not> isWhiteSpace (hd m) \<and> \<not> isWhiteSpace (last m)"
  shows "trim (l @ m @ r) = m"
proof (cases m)
  case Nil
  have e: "dropWhile isWhiteSpace (l @ r) = []"
    using assms by auto
  show ?thesis
    by (simp add: trim_def Nil e)
next
  case (Cons c cs)
  with assms(3) have h: "\<not> isWhiteSpace c" and e: "\<not> isWhiteSpace (last m)"
    by auto
  have "dropWhile isWhiteSpace (l @ m @ r) = m @ r"
    using assms(1) h Cons by (simp add: dropWhile_append)
  moreover have "m \<noteq> []"
    using Cons by simp
  then have b: "dropWhile isWhiteSpace (rev m) = rev m"
    using e by (simp add: dropWhile_eq_self_iff hd_rev)
  have "dropWhile isWhiteSpace (rev r @ rev m) = dropWhile isWhiteSpace (rev m)"
    using assms(2) by (simp add: dropWhile_append)
  then have "dropWhile isWhiteSpace (rev r @ rev m) = rev m"
    by (simp only: b)
  ultimately show ?thesis
    by (simp add: trim_def)
qed

subsection \<open>Idempotence\<close>

lemma cleaned_idem: "cleaned (cleaned t) = cleaned t"
proof -
  let ?n = "collapseNewlines t"
  let ?s = "collapseSpaces ?n"
  have sub: "sublist (cleaned t) ?s"
    by (simp add: cleaned_def sublist_trim)
  have "\<not> sublist [0x0A, 0x0A] ?s"
    by (simp add: collapseSpaces_keeps_no_pair collapseNewlines_no_pair)
  then have "\<not> sublist [0x0A, 0x0A] (cleaned t)"
    using sub sublist_trans by blast
  then have n: "collapseNewlines (cleaned t) = cleaned t"
    by (rule collapseNewlines_fix)
  have "\<not> sublist [0x20, 0x20] (cleaned t)"
    using sub sublist_trans collapseSpaces_no_pair by blast
  moreover have "0x09 \<notin> set (cleaned t)"
    using set_mono_sublist [OF sub] collapseSpaces_no_tab by blast
  ultimately have s: "collapseSpaces (cleaned t) = cleaned t"
    by (simp add: collapseSpaces_fix)
  have "trim (cleaned t) = cleaned t"
    by (simp add: cleaned_def trim_idem)
  with n s show ?thesis
    by (simp add: cleaned_def [of "cleaned t"])
qed

text \<open>
  C5. \<open>cleanFormatting\<close> replaces every run of two or more consecutive line breaks
  (the character U+000A of the regular expression) with a single one, then every run of
  spaces and tabs with a single space, then trims leading and trailing whitespace. A run
  is maximal: nothing of its class stands right before or after it; text without a
  character of the class is unchanged by a replacement. In particular
  \<^verbatim>\<open>cleanFormatting("a\n\n\nb   c")\<close> is \<^verbatim>\<open>"a\nb c"\<close>.
\<close>

theorem cleanFormatting_steps:
  "rawText (cleanFormatting s) = trim (collapseSpaces (collapseNewlines (rawText s))) \<and>
   ((u = [] \<or> last u \<noteq> 0x0A) \<and> (v = [] \<or> hd v \<noteq> 0x0A) \<longrightarrow>
      collapseNewlines (u @ replicate n 0x0A @ v) =
        collapseNewlines u @ (if 2 \<le> n then [0x0A] else replicate n 0x0A) @
        collapseNewlines v) \<and>
   (0x0A \<notin> set t \<longrightarrow> collapseNewlines t = t) \<and>
   ((x = [] \<or> last x \<notin> {0x20, 0x09}) \<and> (y = [] \<or> hd y \<notin> {0x20, 0x09}) \<and>
    set r \<subseteq> {0x20, 0x09} \<longrightarrow>
      collapseSpaces (x @ r @ y) =
        collapseSpaces x @ (if r \<noteq> [] then [0x20] else []) @ collapseSpaces y) \<and>
   (0x20 \<notin> set w \<and> 0x09 \<notin> set w \<longrightarrow> collapseSpaces w = w) \<and>
   ((\<forall>c\<in>set l. isWhiteSpace c) \<and> (\<forall>c\<in>set l'. isWhiteSpace c) \<and>
    (m = [] \<or> \<not> isWhiteSpace (hd m) \<and> \<not> isWhiteSpace (last m)) \<longrightarrow>
      trim (l @ m @ l') = m) \<and>
   cleaned (js ''a\<newline>\<newline>\<newline>b   c'') = js ''a\<newline>b c''"
proof -
  have a: "rawText (cleanFormatting s) = trim (collapseSpaces (collapseNewlines (rawText s)))"
    by (simp add: cleanFormatting_def cleaned_def)
  have b: "collapseNewlines (u @ replicate n 0x0A @ v) =
        collapseNewlines u @ (if 2 \<le> n then [0x0A] else replicate n 0x0A) @
        collapseNewlines v"
    if "u = [] \<or> last u \<noteq> 0x0A" and "v = [] \<or> hd v \<noteq> 0x0A"
  proof -
    have "(replicate n (0x0A::jschar) \<noteq> [] \<and> 2 \<le> length (replicate n (0x0A::jschar))) = (2 \<le> n)"
      by auto
    then show ?thesis
      using replaceRuns_maximal_run [of u "\<lambda>c. c = 0x0A" v "replicate n 0x0A" 2 "[0x0A]"] that
      by (simp add: collapseNewlines_def)
  qed
  have c: "collapseNewlines t = t" if "0x0A \<notin> set t"
    using that replaceRuns_none [of t "\<lambda>c. c = 0x0A"] by (auto simp: collapseNewlines_def)
  have d: "collapseSpaces (x @ r @ y) =
        collapseSpaces x @ (if r \<noteq> [] then [0x20] else []) @ collapseSpaces y"
    if "x = [] \<or> last x \<notin> {0x20, 0x09}" and "y = [] \<or> hd y \<notin> {0x20, 0x09}"
      and "set r \<subseteq> {0x20, 0x09}"
  proof -
    have p: "\<forall>c\<in>set r. c = 0x20 \<or> c = 0x09"
      using that(3) by auto
    have q: "x = [] \<or> \<not> (last x = 0x20 \<or> last x = 0x09)"
      "y = [] \<or> \<not> (hd y = 0x20 \<or> hd y = 0x09)"
      using that(1,2) by simp_all
    have "(r \<noteq> [] \<and> 1 \<le> length r) = (r \<noteq> [])"
      by (cases r) auto
    then show ?thesis
      using replaceRuns_maximal_run [of x "\<lambda>c. c = 0x20 \<or> c = 0x09" y r 1 "[0x20]"] p q
      by (simp add: collapseSpaces_def)
  qed
  have e: "collapseSpaces w = w" if "0x20 \<notin> set w \<and> 0x09 \<notin> set w"
    using that replaceRuns_none [of w "\<lambda>c. c = 0x20 \<or> c = 0x09"]
    by (auto simp: collapseSpaces_def)
  have f: "cleaned (js ''a\<newline>\<newline>\<newline>b   c'') = js ''a\<newline>b c''"
    by (simp add: cleaned_def collapseNewlines_def collapseSpaces_def trim_def isWhiteSpace_def)
  show ?thesis
    using a b c d e f trim_strips [of l l' m] by blast
qed

theorem cleanFormatting_steps_witness:
  "last (js ''a'') \<noteq> 0x0A \<and> hd (js ''b   c'') \<noteq> 0x0A \<and>
   collapseNewlines (js ''a'' @ replicate 3 0x0A @ js ''b   c'') = js ''a\<newline>b   c'' \<and>
   last (js ''a\<newline>b'') \<notin> {0x20, 0x09} \<and> hd (js ''c'') \<notin> {0x20, 0x09} \<and>
   set (js ''   '') \<subseteq> {0x20, 0x09} \<and>
   collapseSpaces (js ''a\<newline>b'' @ js ''   '' @ js ''c'') = js ''a\<newline>b c'' \<and>
   isWhiteSpace 0x20 \<and> isWhiteSpace 0x0A \<and>
   \<not> isWhiteSpace (hd (js ''a b'')) \<and> \<not> isWhiteSpace (last (js ''a b'')) \<and>
   trim ([0x20, 0x0A] @ js ''a b'' @ [0x0A]) = js ''a b''"
proof -
  have h1: "(js ''a'' = [] \<or> last (js ''a'') \<noteq> 0x0A) \<and>
            (js ''b   c'' = [] \<or> hd (js ''b   c'') \<noteq> 0x0A)"
    by simp
  have h2: "0x0A \<notin> set (js ''a'')" "0x0A \<notin> set (js ''b   c'')"
    by simp_all
  have h3: "(js ''a\<newline>b'' = [] \<or> last (js ''a\<newline>b'') \<notin> {0x20, 0x09}) \<and>
            (js ''c'' = [] \<or> hd (js ''c'') \<notin> {0x20, 0x09}) \<and>
            set (js ''   '') \<subseteq> {0x20, 0x09}"
    by simp
  have h4: "0x20 \<notin> set (js ''a\<newline>b'') \<and> 0x09 \<notin> set (js ''a\<newline>b'')"
           "0x20 \<notin> set (js ''c'') \<and> 0x09 \<notin> set (js ''c'')"
    by simp_all
  have h5: "(\<forall>c\<in>set [0x20, 0x0A]. isWhiteSpace c) \<and> (\<forall>c\<in>set [0x0A]. isWhiteSpace c) \<and>
            (js ''a b'' = [] \<or> \<not> isWhiteSpace (hd (js ''a b'')) \<and>
             \<not> isWhiteSpace (last (js ''a b'')))"
    by (simp add: isWhiteSpace_def)
  have n: "collapseNewlines (js ''a'' @ replicate 3 0x0A @ js ''b   c'') = js ''a\<newline>b   c''"
    using cleanFormatting_steps [where u = "js ''a''" and v = "js ''b   c''" and n = 3] h1
      cleanFormatting_steps [where t = "js ''a''"] cleanFormatting_steps [where t = "js ''b   c''"] h2
    by simp
  have s: "collapseSpaces (js ''a\<newline>b'' @ js ''   '' @ js ''c'') = js ''a\<newline>b c''"
    using cleanFormatting_steps [where x = "js ''a\<newline>b''" and y = "js ''c''" and r = "js ''   ''"] h3
      cleanFormatting_steps [where w = "js ''a\<newline>b''"] cleanFormatting_steps [where w = "js ''c''"] h4
    by simp
  have t: "trim ([0x20, 0x0A] @ js ''a b'' @ [0x0A]) = js ''a b''"
    using cleanFormatting_steps [where l = "[0x20, 0x0A]" and l' = "[0x0A]" and m = "js ''a b''"] h5
    by blast
  show ?thesis
    using n s t h5 by (simp add: isWhiteSpace_def)
qed

text \<open>
  C4. The text transform of \<open>cleanFormatting\<close> is idempotent: for every input string,
  applying it twice yields the same string as applying it once; so does the handler on
  the state.
\<close>

theorem cleanFormatting_idempotent:
  "cleaned (cleaned t) = cleaned t \<and> cleanFormatting (cleanFormatting s) = cleanFormatting s"
  by (simp add: cleanFormatting_def cleaned_idem)

theorem cleanFormatting_idempotent_witness:
  "cleaned (js ''  a\<newline>\<newline> b'' @ [0x09, 0x09] @ js ''c '') = js ''a\<newline> b c'' \<and>
   cleaned (js ''a\<newline> b c'') = js ''a\<newline> b c''"
proof -
  have e: "cleaned (js ''  a\<newline>\<newline> b'' @ [0x09, 0x09] @ js ''c '') = js ''a\<newline> b c''"
    by (simp add: cleaned_def collapseNewlines_def collapseSpaces_def trim_def isWhiteSpace_def)
  show ?thesis
    using cleanFormatting_idempotent [of "js ''  a\<newline>\<newline> b'' @ [0x09, 0x09] @ js ''c ''"] e
    by simp
qed

section \<open>Analyzing\<close>

text \<open>What the later variant does when its clear request fails: nothing after it runs.\<close>

lemma analyzeEmails_clear_failed:
  assumes "rawText s \<noteq> lastAnalyzedText s"
    and "clearResponse net = Rejected \<or> clearResponse net = Resolved False b"
  shows "analyzeEmails net s =
           \<lparr>final = s\<lparr>loading := True, error := None\<rparr>, requests = [PostClear],
            timers = [], promise = Thrown\<rparr>"
  using assms by (auto simp add: analyzeEmails_def Let_def)

text \<open>
  C1. In the later variant's \<open>analyzeEmails\<close> the loading flag is false after the
  handler finishes in every outcome, in particular when the preliminary clear request
  fails. The code does not do this: on the sample state, whose text differs from the
  last analyzed text, a clear request that is rejected or answered with a non-OK status
  ends the handler with an exception before the \<^verbatim>\<open>try/finally\<close>, and the loading
  flag stays true.
\<close>

theorem analyzeEmails_clear_failure_leaves_loading:
  "loading (final (analyzeEmails (online\<lparr>clearResponse := Resolved False None\<rparr>) sampleState)) \<and>
   promise (analyzeEmails (online\<lparr>clearResponse := Resolved False None\<rparr>) sampleState) = Thrown \<and>
   loading (final (analyzeEmails (online\<lparr>clearResponse := Rejected\<rparr>) sampleState)) \<and>
   promise (analyzeEmails (online\<lparr>clearResponse := Rejected\<rparr>) sampleState) = Thrown"
proof -
  have d: "rawText sampleState \<noteq> lastAnalyzedText sampleState"
    by (simp add: sampleState_def initial_def)
  show ?thesis
    using analyzeEmails_clear_failed [OF d, of "online\<lparr>clearResponse := Resolved False None\<rparr>" None]
      analyzeEmails_clear_failed [OF d, of "online\<lparr>clearResponse := Rejected\<rparr>"]
    by simp
qed

text \<open>
  The claim C2 as stated fails on the session \<open>sessionAfter\<close>: the last successfully
  analyzed text is "a" and the text area holds "b", whose analysis failed. Pressing
  Analyze again sends no clear request although "b" differs from "a"; typing "a" again
  and pressing Analyze sends one although "a" is the last successfully analyzed text.
\<close>

theorem analyzeEmails_last_successful_counterexample:
  "fst sessionAfter = Some (js ''a'') \<and>
   rawText (snd sessionAfter) = js ''b'' \<and>
   error (snd sessionAfter) = Some (js ''Failed to analyze emails.'') \<and>
   requests (analyzeEmails online (snd sessionAfter)) = [PostAnalyze (js ''b'')] \<and>
   requests (analyzeEmails online ((snd sessionAfter)\<lparr>rawText := js ''a''\<rparr>)) =
     [PostClear, PostAnalyze (js ''a'')]"
  by (simp add: sessionAfter_def analyzeSucceeded_def analyzeEmails_def analyzeRequest_def
      Let_def online_def initial_def)

text \<open>
  C2, amended. In the later variant \<open>analyzeEmails\<close> sends the preliminary clear
  request exactly when the current raw text differs, by exact string equality, from the
  state variable \<open>lastAnalyzedText\<close>. When the two are equal the analyze request is the
  only request and \<open>lastAnalyzedText\<close> is unchanged. When they differ and the clear
  request is answered OK, \<open>lastAnalyzedText\<close> becomes the current text before the
  analyze request is sent, whatever the outcome of the analysis. So whenever the analyze
  request is sent, \<open>lastAnalyzedText\<close> is its text afterwards and the local outbox
  mirror is empty.
\<close>

theorem analyzeEmails_clear_guard:
  "(PostClear \<in> set (requests (analyzeEmails net s))) = (rawText s \<noteq> lastAnalyzedText s) \<and>
   (rawText s = lastAnalyzedText s \<longrightarrow>
      requests (analyzeEmails net s) = [PostAnalyze (rawText s)] \<and>
      lastAnalyzedText (final (analyzeEmails net s)) = lastAnalyzedText s \<and>
      sentLog (final (analyzeEmails net s)) = []) \<and>
   (rawText s \<noteq> lastAnalyzedText s \<and> clearResponse net = Resolved True b \<longrightarrow>
      requests (analyzeEmails net s) = [PostClear, PostAnalyze (rawText s)] \<and>
      lastAnalyzedText (final (analyzeEmails net s)) = rawText s \<and>
      sentLog (final (analyzeEmails net s)) = []) \<and>
   (PostAnalyze (rawText s) \<in> set (requests (analyzeEmails net s)) \<longrightarrow>
      lastAnalyzedText (final (analyzeEmails net s)) = rawText s)"
  by (auto simp add: analyzeEmails_def analyzeRequest_def Let_def
      split: response.splits option.splits bool.splits)

theorem analyzeEmails_clear_guard_witness:
  "rawText sampleState \<noteq> lastAnalyzedText sampleState \<and>
   clearResponse online = Resolved True None \<and>
   requests (analyzeEmails online sampleState) = [PostClear, PostAnalyze (js ''Hello'')] \<and>
   lastAnalyzedText (final (analyzeEmails online sampleState)) = js ''Hello'' \<and>
   rawText (sampleState\<lparr>lastAnalyzedText := js ''Hello''\<rparr>) =
     lastAnalyzedText (sampleState\<lparr>lastAnalyzedText := js ''Hello''\<rparr>) \<and>
   requests (analyzeEmails offline (sampleState\<lparr>lastAnalyzedText := js ''Hello''\<rparr>)) =
     [PostAnalyze (js ''Hello'')]"
proof -
  have d: "rawText sampleState \<noteq> lastAnalyzedText sampleState"
    by (simp add: sampleState_def initial_def)
  have c: "clearResponse online = Resolved True None"
    by (simp add: online_def)
  have e: "rawText (sampleState\<lparr>lastAnalyzedText := js ''Hello''\<rparr>) =
      lastAnalyzedText (sampleState\<lparr>lastAnalyzedText := js ''Hello''\<rparr>)"
    by (simp add: sampleState_def)
  have r: "rawText sampleState = js ''Hello''"
    by (simp add: sampleState_def)
  show ?thesis
    using analyzeEmails_clear_guard [of online sampleState None]
      analyzeEmails_clear_guard [of offline "sampleState\<lparr>lastAnalyzedText := js ''Hello''\<rparr>"]
      d c e r
    by simp
qed

text \<open>
  C9. If the analyze request itself fails (the fetch rejects or its body cannot be
  parsed), the emails collection is unchanged, the shared error slot holds
  "Failed to analyze emails." and the loading flag is false afterwards. The later
  variant sends the analyze request when the text equals \<open>lastAnalyzedText\<close> or the
  clear request was answered OK, the earlier one when the text is not blank.
\<close>

theorem analyze_failure:
  assumes "analyzeResponse net = Rejected \<or> analyzeResponse net = Resolved ok None"
  shows "(rawText s = lastAnalyzedText s \<or> clearResponse net = Resolved True b \<longrightarrow>
           emails (final (analyzeEmails net s)) = emails s \<and>
           error (final (analyzeEmails net s)) = Some (js ''Failed to analyze emails.'') \<and>
           loading (final (analyzeEmails net s)) = False \<and>
           last (requests (analyzeEmails net s)) = PostAnalyze (rawText s)) \<and>
         (trim (rawText s) \<noteq> [] \<longrightarrow>
           emails (final (analyzeEmails_early net s)) = emails s \<and>
           error (final (analyzeEmails_early net s)) = Some (js ''Failed to analyze emails.'') \<and>
           loading (final (analyzeEmails_early net s)) = False \<and>
           requests (analyzeEmails_early net s) = [PostAnalyze (rawText s)])"
  using assms
  by (auto simp add: analyzeEmails_def analyzeEmails_early_def analyzeRequest_def Let_def)

theorem analyze_failure_witness:
  "analyzeResponse (online\<lparr>analyzeResponse := Rejected\<rparr>) = Rejected \<and>
   clearResponse (online\<lparr>analyzeResponse := Rejected\<rparr>) = Resolved True None \<and>
   trim (rawText sampleState) \<noteq> [] \<and>
   emails (final (analyzeEmails (online\<lparr>analyzeResponse := Rejected\<rparr>) sampleState)) =
     emails sampleState \<and>
   error (final (analyzeEmails (online\<lparr>analyzeResponse := Rejected\<rparr>) sampleState)) =
     Some (js ''Failed to analyze emails.'') \<and>
   \<not> loading (final (analyzeEmails (online\<lparr>analyzeResponse := Rejected\<rparr>) sampleState)) \<and>
   emails (final (analyzeEmails_early (online\<lparr>analyzeResponse := Rejected\<rparr>) sampleState)) =
     emails sampleState \<and>
   error (final (analyzeEmails_early (online\<lparr>analyzeResponse := Rejected\<rparr>) sampleState)) =
     Some (js ''Failed to analyze emails.'') \<and>
   \<not> loading (final (analyzeEmails_early (online\<lparr>analyzeResponse := Rejected\<rparr>) sampleState))"
proof -
  have a: "analyzeResponse (online\<lparr>analyzeResponse := Rejected\<rparr>) = Rejected"
    by simp
  have c: "clearResponse (online\<lparr>analyzeResponse := Rejected\<rparr>) = Resolved True None"
    by (simp add: online_def)
  have t: "trim (rawText sampleState) \<noteq> []"
    by (simp add: sampleState_def trim_def isWhiteSpace_def)
  show ?thesis
    using analyze_failure [of "online\<lparr>analyzeResponse := Rejected\<rparr>" True sampleState None] a c t
    by simp
qed

section \<open>Suggesting a reply\<close>

text \<open>
  The claim C8 as stated fails on a response whose draft field is present and empty:
  the specification's words give the empty draft, the code takes the message.
\<close>

theorem suggestReply_empty_draft_counterexample:
  "data_draft emptyDraft = Some [] \<and>
   specDraft emptyDraft = [] \<and>
   modalDraft (final (suggestReply (online\<lparr>suggestResponse := Resolved True (Some emptyDraft)\<rparr>)
     (sampleEmail 1 ''urgent'') initial)) = js ''Try later'' \<and>
   modalDraft (final (suggestReply (online\<lparr>suggestResponse := Resolved True (Some emptyDraft)\<rparr>)
     (sampleEmail 1 ''urgent'') initial)) \<noteq> specDraft emptyDraft"
  by (simp add: suggestReply_def Let_def emptyDraft_def specDraft_def)

text \<open>
  C8, amended. On \<open>suggestReply\<close>, when the request succeeds the draft field is set to
  the response's draft verbatim if it is present and not empty, else to the response's
  message if present, else to "No draft available."; when the request fails (the fetch
  rejects or its body cannot be parsed), "Failed to get reply suggestion." is placed into
  the draft field itself and the shared error slot stays empty; the modal loading flag is
  false afterwards in every case.
\<close>

theorem suggestReply_draft:
  "(suggestResponse net = Resolved ok (Some d) \<and> data_draft d = Some t \<and> t \<noteq> [] \<longrightarrow>
      modalDraft (final (suggestReply net email s)) = t) \<and>
   (suggestResponse net = Resolved ok (Some d) \<and>
    (data_draft d = None \<or> data_draft d = Some []) \<and> data_message d = Some m \<longrightarrow>
      modalDraft (final (suggestReply net email s)) = m) \<and>
   (suggestResponse net = Resolved ok (Some d) \<and>
    (data_draft d = None \<or> data_draft d = Some []) \<and> data_message d = None \<longrightarrow>
      modalDraft (final (suggestReply net email s)) = js ''No draft available.'') \<and>
   (suggestResponse net = Rejected \<or> suggestResponse net = Resolved ok None \<longrightarrow>
      modalDraft (final (suggestReply net email s)) = js ''Failed to get reply suggestion.'') \<and>
   error (final (suggestReply net email s)) = None \<and>
   modalLoading (final (suggestReply net email s)) = False \<and>
   promise (suggestReply net email s) = Fulfilled"
  by (auto simp add: suggestReply_def Let_def)

theorem suggestReply_draft_witness:
  "modalDraft (final (suggestReply online (sampleEmail 1 ''urgent'') sampleState)) = js ''Thanks'' \<and>
   modalDraft (final (suggestReply (online\<lparr>suggestResponse := Resolved True (Some emptyDraft)\<rparr>)
     (sampleEmail 1 ''urgent'') sampleState)) = js ''Try later'' \<and>
   modalDraft (final (suggestReply offline (sampleEmail 1 ''urgent'') sampleState)) =
     js ''Failed to get reply suggestion.'' \<and>
   error (final (suggestReply offline (sampleEmail 1 ''urgent'') sampleState)) = None \<and>
   \<not> modalLoading (final (suggestReply offline (sampleEmail 1 ''urgent'') sampleState))"
proof -
  have a: "suggestResponse online =
      Resolved True (Some \<lparr>data_draft = Some (js ''Thanks''), data_message = None\<rparr>)"
    by (simp add: online_def)
  have b: "data_draft emptyDraft = Some []" "data_message emptyDraft = Some (js ''Try later'')"
    by (simp_all add: emptyDraft_def)
  have c: "suggestResponse offline = Rejected"
    by (simp add: offline_def)
  show ?thesis
    using suggestReply_draft [of online True
        "\<lparr>data_draft = Some (js ''Thanks''), data_message = None\<rparr>" "js ''Thanks''"
        "sampleEmail 1 ''urgent''" sampleState]
      suggestReply_draft [of "online\<lparr>suggestResponse := Resolved True (Some emptyDraft)\<rparr>" True
        emptyDraft _ "sampleEmail 1 ''urgent''" sampleState "js ''Try later''"]
      suggestReply_draft [of offline _ _ _ "sampleEmail 1 ''urgent''" sampleState]
      a b c
    by simp
qed

section \<open>Approving\<close>

lemma loadSentLog_frame:
  "emails (final (loadSentLog net s)) = emails s \<and>
   approveStatus (final (loadSentLog net s)) = approveStatus s \<and>
   sentJustNow (final (loadSentLog net s)) = sentJustNow s \<and>
   modalOpen (final (loadSentLog net s)) = modalOpen s"
  by (simp add: loadSentLog_def Let_def split: response.splits option.splits)

lemma approved_sel:
  "emails (approved mid d s) = filter (\<lambda>e. ident e \<noteq> mid) (emails s)"
  "approveStatus (approved mid d s) =
     Some (case approve_message d of
             Some m \<Rightarrow> m
           | None \<Rightarrow> js ''Marked as sent (simulated).'')"
  "sentJustNow (approved mid d s)"
  by (simp_all add: approved_def)

lemma approveAndSend_ok:
  assumes "modalEmailId s = Some mid" and "approveResponse net = Resolved ok (Some d)"
  shows "final (approveAndSend net s) =
           (if sentLogOpen s
            then final (loadSentLog net
                   (approved mid d (s\<lparr>approveStatus := Some (js ''Sending...'')\<rparr>)))
            else approved mid d (s\<lparr>approveStatus := Some (js ''Sending...'')\<rparr>))"
    and "timers (approveAndSend net s) = [(800, CloseModal)]"
    and "final (approveAndSend_early net s) =
           approved mid d (s\<lparr>approveStatus := Some (js ''Sending...'')\<rparr>)"
    and "timers (approveAndSend_early net s) = [(800, CloseModal)]"
  using assms by (simp_all add: approveAndSend_def approveAndSend_early_def Let_def)

lemma buckets_without:
  assumes "emails t = filter (\<lambda>e. ident e \<noteq> mid) es"
  shows "mid \<notin> ident `
           (set (urgentEmails t) \<union> set (normalEmails t) \<union> set (lowEmails t))"
  using assms by (auto simp: urgentEmails_def normalEmails_def lowEmails_def)

text \<open>
  C6. After a successful \<open>approveAndSend\<close>, in either variant, the approved email id is
  removed from the email collection, hence no email of any bucket has it; the approve
  status is the server's message or the fallback "Marked as sent (simulated)."; the
  "just sent" flag is set; and one timer is registered, with delay 800, whose callback
  closes the modal.
\<close>

theorem approveAndSend_success:
  assumes "modalEmailId s = Some mid"
    and "approveResponse net = Resolved ok (Some d)"
    and "r = approveAndSend net s \<or> r = approveAndSend_early net s"
  shows "emails (final r) = filter (\<lambda>e. ident e \<noteq> mid) (emails s) \<and>
         mid \<notin> ident ` (set (urgentEmails (final r)) \<union> set (normalEmails (final r)) \<union>
                          set (lowEmails (final r))) \<and>
         approveStatus (final r) =
           Some (case approve_message d of
                   Some m \<Rightarrow> m
                 | None \<Rightarrow> js ''Marked as sent (simulated).'') \<and>
         sentJustNow (final r) \<and>
         timers r = [(800, CloseModal)] \<and>
         \<not> modalOpen (runCallback CloseModal (final r))"
proof -
  note ok = approveAndSend_ok [OF assms(1,2)]
  have e: "emails (final r) = filter (\<lambda>e. ident e \<noteq> mid) (emails s)"
    using assms(3) ok by (auto simp: loadSentLog_frame approved_sel)
  have a: "approveStatus (final r) =
      Some (case approve_message d of
              Some m \<Rightarrow> m
            | None \<Rightarrow> js ''Marked as sent (simulated).'')"
    using assms(3) ok by (auto simp: loadSentLog_frame approved_sel)
  have j: "sentJustNow (final r)"
    using assms(3) ok by (auto simp: loadSentLog_frame approved_sel)
  have t: "timers r = [(800, CloseModal)]"
    using assms(3) ok by auto
  show ?thesis
    using e a j t buckets_without [OF e] by simp
qed

theorem approveAndSend_success_witness:
  "modalEmailId sampleState = Some 1 \<and>
   approveResponse online = Resolved True (Some \<lparr>approve_message = None\<rparr>) \<and>
   emails (final (approveAndSend online sampleState)) =
     [sampleEmail 2 ''normal'', sampleEmail 3 ''low'', sampleEmail 4 ''spam''] \<and>
   approveStatus (final (approveAndSend online sampleState)) =
     Some (js ''Marked as sent (simulated).'') \<and>
   sentJustNow (final (approveAndSend online sampleState)) \<and>
   timers (approveAndSend online sampleState) = [(800, CloseModal)]"
proof -
  have m: "modalEmailId sampleState = Some 1"
    by (simp add: sampleState_def)
  have a: "approveResponse online = Resolved True (Some \<lparr>approve_message = None\<rparr>)"
    by (simp add: online_def)
  have f: "filter (\<lambda>e. ident e \<noteq> 1) (emails sampleState) =
      [sampleEmail 2 ''normal'', sampleEmail 3 ''low'', sampleEmail 4 ''spam'']"
    by (simp add: sampleState_def sampleEmail_def)
  show ?thesis
    using approveAndSend_success [OF m a, of "approveAndSend online sampleState"] m a f
    by simp
qed

text \<open>
  C7. When the approve request of \<open>approveAndSend\<close> fails, the approve status is
  "Failed to approve/send.", nothing else of the state changes: the email collection is
  unchanged, the modal stays as it was and no timer is registered to close it, the
  "just sent" flag keeps its value, and so the approve button, which is disabled while
  loading, when the draft is blank or after a successful send, is as enabled as before.
\<close>

theorem approveAndSend_failure:
  assumes "modalEmailId s = Some mid"
    and "approveResponse net = Rejected \<or> approveResponse net = Resolved ok None"
  shows "final (approveAndSend net s) =
           s\<lparr>approveStatus := Some (js ''Failed to approve/send.'')\<rparr> \<and>
         approveStatus (final (approveAndSend net s)) = Some (js ''Failed to approve/send.'') \<and>
         emails (final (approveAndSend net s)) = emails s \<and>
         modalOpen (final (approveAndSend net s)) = modalOpen s \<and>
         timers (approveAndSend net s) = [] \<and>
         sentJustNow (final (approveAndSend net s)) = sentJustNow s \<and>
         approveDisabled (final (approveAndSend net s)) = approveDisabled s"
  using assms by (auto simp add: approveAndSend_def Let_def approveDisabled_def)

theorem approveAndSend_failure_witness:
  "modalEmailId sampleState = Some 1 \<and>
   approveResponse offline = Rejected \<and>
   \<not> approveDisabled sampleState \<and>
   approveStatus (final (approveAndSend offline sampleState)) =
     Some (js ''Failed to approve/send.'') \<and>
   emails (final (approveAndSend offline sampleState)) = emails sampleState \<and>
   modalOpen (final (approveAndSend offline sampleState)) \<and>
   \<not> sentJustNow (final (approveAndSend offline sampleState)) \<and>
   \<not> approveDisabled (final (approveAndSend offline sampleState))"
proof -
  have m: "modalEmailId sampleState = Some 1"
    by (simp add: sampleState_def)
  have a: "approveResponse offline = Rejected"
    by (simp add: offline_def)
  have b: "\<not> approveDisabled sampleState"
    by (simp add: approveDisabled_def sampleState_def initial_def trim_def isWhiteSpace_def)
  have o: "modalOpen sampleState" "\<not> sentJustNow sampleState"
    by (simp_all add: sampleState_def initial_def)
  show ?thesis
    using approveAndSend_failure [OF m, of offline True] m a b o
    by (simp add: approveDisabled_def)
qed

text \<open>
  C10. If \<open>approveAndSend\<close> is invoked while no target email id is recorded, it returns
  at once, in either variant: no request is sent, no timer is registered and the whole
  state, the approve status included, is as before.
\<close>

theorem approveAndSend_no_target:
  assumes "modalEmailId s = None"
  shows "approveAndSend net s =
           \<lparr>final = s, requests = [], timers = [], promise = Fulfilled\<rparr> \<and>
         approveAndSend_early net s =
           \<lparr>final = s, requests = [], timers = [], promise = Fulfilled\<rparr>"
  using assms by (simp add: approveAndSend_def approveAndSend_early_def)

theorem approveAndSend_no_target_witness:
  "modalEmailId initial = None \<and>
   final (approveAndSend online initial) = initial \<and>
   requests (approveAndSend online initial) = [] \<and>
   final (approveAndSend_early online initial) = initial \<and>
   requests (approveAndSend_early online initial) = []"
proof -
  have n: "modalEmailId initial = None"
    by (simp add: initial_def)
  show ?thesis
    using approveAndSend_no_target [OF n, of online] n by simp
qed

end
